theory Spec2Isabelle
  imports Main "HOL-Library.Product_Lexorder"
begin

section \<open>The platform's calendar, as the resolver uses it\<close>

text \<open>
  A JavaScript \<open>Date\<close> is a time value: a count of milliseconds. The resolver only
  reads local calendar fields, so a \<open>Date\<close> is modelled as the count of milliseconds of
  local time since local 1970-01-01 00:00, for a zone with a fixed offset (no daylight
  saving transitions) and for valid dates (no \<open>Invalid Date\<close>, no clipping of the time
  range). The functions below follow the abstract operations of ECMA-262 (Day,
  TimeWithinDay, DayFromYear, YearFromTime, MonthFromTime, DateFromTime, WeekDay,
  MakeDay), computed on day numbers.
\<close>

type_synonym Date = int

definition msPerDay :: int where
  "msPerDay = 86400000"

definition Day :: "Date \<Rightarrow> int" where
  "Day t = t div msPerDay"

definition TimeWithinDay :: "Date \<Rightarrow> int" where
  "TimeWithinDay t = t mod msPerDay"

definition InLeapYear :: "int \<Rightarrow> bool" where
  "InLeapYear y = (y mod 4 = 0 \<and> (y mod 100 \<noteq> 0 \<or> y mod 400 = 0))"

definition DayFromYear :: "int \<Rightarrow> int" where
  "DayFromYear y = 365 * (y - 1970) + (y - 1969) div 4 - (y - 1901) div 100 + (y - 1601) div 400"

text \<open>
  The year of a day number: the day is located in its 400-year cycle (counted from 1601),
  then in its century, its 4-year group and its year.
\<close>

definition YearFromDay :: "int \<Rightarrow> int" where
  "YearFromDay d =
     (let n = d + 134774;
          q = n div 146097;
          r = n mod 146097;
          a = min 3 (r div 36524);
          r1 = r - a * 36524;
          b = r1 div 1461;
          r2 = r1 mod 1461;
          c = min 3 (r2 div 365)
      in 1601 + 400 * q + 100 * a + 4 * b + c)"

definition DayWithinYear :: "int \<Rightarrow> int" where
  "DayWithinYear d = d - DayFromYear (YearFromDay d)"

text \<open>Days of the year before month index \<open>m\<close> (0 = January), \<open>l\<close> is 1 in a leap year.\<close>

definition daysBeforeMonth :: "int \<Rightarrow> int \<Rightarrow> int" where
  "daysBeforeMonth l m =
     (if m = 0 then 0 else if m = 1 then 31 else if m = 2 then 59 + l
      else if m = 3 then 90 + l else if m = 4 then 120 + l else if m = 5 then 151 + l
      else if m = 6 then 181 + l else if m = 7 then 212 + l else if m = 8 then 243 + l
      else if m = 9 then 273 + l else if m = 10 then 304 + l else 334 + l)"

definition leapDays :: "int \<Rightarrow> int" where
  "leapDays y = (if InLeapYear y then 1 else 0)"

definition MonthFromDay :: "int \<Rightarrow> int" where
  "MonthFromDay d =
     (let w = DayWithinYear d; l = leapDays (YearFromDay d)
      in if w < 31 then 0 else if w < 59 + l then 1 else if w < 90 + l then 2
         else if w < 120 + l then 3 else if w < 151 + l then 4 else if w < 181 + l then 5
         else if w < 212 + l then 6 else if w < 243 + l then 7 else if w < 273 + l then 8
         else if w < 304 + l then 9 else if w < 334 + l then 10 else 11)"

definition DateFromDay :: "int \<Rightarrow> int" where
  "DateFromDay d =
     DayWithinYear d - daysBeforeMonth (leapDays (YearFromDay d)) (MonthFromDay d) + 1"

definition WeekDay :: "int \<Rightarrow> int" where
  "WeekDay d = (d + 4) mod 7"

text \<open>
  \<open>MakeDay\<close>: the day number of the first of the month, the month index carried into the
  year, plus the day of the month less one; a day of the month outside the month rolls
  into the neighbouring months.
\<close>

definition MakeDay :: "int \<Rightarrow> int \<Rightarrow> int \<Rightarrow> int" where
  "MakeDay y m dt =
     (let ym = y + m div 12; mn = m mod 12
      in DayFromYear ym + daysBeforeMonth (leapDays ym) mn + dt - 1)"

definition getFullYear :: "Date \<Rightarrow> int" where
  "getFullYear t = YearFromDay (Day t)"

definition getMonth :: "Date \<Rightarrow> int" where
  "getMonth t = MonthFromDay (Day t)"

definition getDate :: "Date \<Rightarrow> int" where
  "getDate t = DateFromDay (Day t)"

definition getDay :: "Date \<Rightarrow> int" where
  "getDay t = WeekDay (Day t)"

definition getTime :: "Date \<Rightarrow> int" where
  "getTime t = t"

text \<open>
  \<open>new Date(year, monthIndex, day)\<close>: local midnight of that day. A year from 0 to 99
  stands for 1900 + year, as the constructor has it.
\<close>

definition newDate :: "int \<Rightarrow> int \<Rightarrow> int \<Rightarrow> Date" where
  "newDate y m d =
     (let yr = (if 0 \<le> y \<and> y \<le> 99 then 1900 + y else y)
      in MakeDay yr m d * msPerDay)"

text \<open>\<open>new Date(year, monthIndex, day, hours, minutes)\<close>, used to write target dates.\<close>

definition newDateTime :: "int \<Rightarrow> int \<Rightarrow> int \<Rightarrow> int \<Rightarrow> int \<Rightarrow> Date" where
  "newDateTime y m d h mi = newDate y m d + h * 3600000 + mi * 60000"

definition setDate :: "Date \<Rightarrow> int \<Rightarrow> Date" where
  "setDate t dt = MakeDay (getFullYear t) (getMonth t) dt * msPerDay + TimeWithinDay t"

definition setFullYear :: "Date \<Rightarrow> int \<Rightarrow> Date" where
  "setFullYear t y = MakeDay y (getMonth t) (getDate t) * msPerDay + TimeWithinDay t"

text \<open>
  \<open>toDateString\<close> prints weekday, month, day of the month and year; two such strings
  are equal exactly when these four fields are.
\<close>

definition toDateString :: "Date \<Rightarrow> int \<times> int \<times> int \<times> int" where
  "toDateString t = (getDay t, getMonth t, getDate t, getFullYear t)"

subsection \<open>Numbers and strings\<close>

text \<open>
  The remainder operator \<open>%\<close> takes the sign of the dividend; \<open>Math.floor(x / y)\<close> on
  integers is \<open>div\<close>.
\<close>

definition js_rem :: "int \<Rightarrow> int \<Rightarrow> int" where
  "js_rem a b = sgn a * (\<bar>a\<bar> mod \<bar>b\<bar>)"

datatype number = Num int | PosInfinity | NegInfinity | NaN

text \<open>Subtraction of numbers: \<open>Infinity - Infinity\<close> is \<open>NaN\<close>.\<close>

fun sub :: "number \<Rightarrow> number \<Rightarrow> number" where
  "sub (Num a) (Num b) = Num (a - b)"
| "sub NaN _ = NaN"
| "sub _ NaN = NaN"
| "sub PosInfinity PosInfinity = NaN"
| "sub NegInfinity NegInfinity = NaN"
| "sub PosInfinity _ = PosInfinity"
| "sub NegInfinity _ = NegInfinity"
| "sub (Num a) PosInfinity = NegInfinity"
| "sub (Num a) NegInfinity = PosInfinity"

text \<open>\<open>x <= y\<close> on numbers; every comparison with \<open>NaN\<close> is false.\<close>

fun num_le :: "number \<Rightarrow> number \<Rightarrow> bool" where
  "num_le (Num a) (Num b) = (a \<le> b)"
| "num_le NaN _ = False"
| "num_le _ NaN = False"
| "num_le NegInfinity _ = True"
| "num_le _ PosInfinity = True"
| "num_le PosInfinity _ = False"
| "num_le _ NegInfinity = False"

text \<open>
  Strings are compared by code units, the shorter string first when it is a prefix of the
  other: \<open>str_le a b\<close> is \<open>a <= b\<close>, and \<open>a >= b\<close> is \<open>str_le b a\<close>.
\<close>

fun str_le :: "string \<Rightarrow> string \<Rightarrow> bool" where
  "str_le [] ys = True"
| "str_le (x # xs) [] = False"
| "str_le (x # xs) (y # ys) =
     (if x = y then str_le xs ys else (of_char x :: nat) < of_char y)"

text \<open>\<open>toString\<close> of an integer, and \<open>padStart(2, '0')\<close>.\<close>

definition digitChar :: "nat \<Rightarrow> char" where
  "digitChar n = ''0123456789'' ! (n mod 10)"

fun natToString :: "nat \<Rightarrow> string" where
  "natToString n = (if n < 10 then [digitChar n] else natToString (n div 10) @ [digitChar n])"

definition toString :: "int \<Rightarrow> string" where
  "toString i = (if i < 0 then CHR ''-'' # natToString (nat (- i)) else natToString (nat i))"

definition padStart2 :: "string \<Rightarrow> string" where
  "padStart2 s = replicate (2 - length s) CHR ''0'' @ s"

text \<open>\<open>s.split(sep)\<close> for a separator of one character.\<close>

fun split :: "char \<Rightarrow> string \<Rightarrow> string list" where
  "split sep [] = [[]]"
| "split sep (c # cs) =
     (if c = sep then [] # split sep cs
      else (case split sep cs of [] \<Rightarrow> [[c]] | p # ps \<Rightarrow> (c # p) # ps))"

text \<open>
  \<open>Number(s)\<close> on a string of decimal digits (the empty string is 0). Any other string
  is taken to \<open>NaN\<close>: the further numeric syntaxes of the language (signs, blanks,
  fractions, exponents, other radices) are outside the \<open>MM-DD\<close> strings of a rule.
\<close>

definition isDigit :: "char \<Rightarrow> bool" where
  "isDigit c = (48 \<le> (of_char c :: nat) \<and> (of_char c :: nat) \<le> 57)"

definition digitVal :: "char \<Rightarrow> int" where
  "digitVal c = int (of_char c) - 48"

definition Number :: "string \<Rightarrow> number" where
  "Number s =
     (if list_all isDigit s then Num (foldl (\<lambda>acc c. 10 * acc + digitVal c) 0 s) else NaN)"

text \<open>Element \<open>i\<close> of a destructured array; a missing element is \<open>undefined\<close>, \<open>NaN\<close> in arithmetic.\<close>

definition element :: "number list \<Rightarrow> nat \<Rightarrow> number" where
  "element xs i = (if i < length xs then xs ! i else NaN)"

text \<open>
  \<open>Array.prototype.sort\<close> with a comparison function is stable, and an element goes
  after another when the comparison of the two is positive (\<open>NaN\<close> counts as 0). The
  order it yields for a consistent comparison function is the one insertion from the
  right computes. The comparison function may raise, which ends the sort.
\<close>

datatype error = TypeError

definition isPositive :: "number \<Rightarrow> bool" where
  "isPositive v = (case v of Num n \<Rightarrow> 0 < n | PosInfinity \<Rightarrow> True | _ \<Rightarrow> False)"

fun insertSorted :: "('a \<Rightarrow> 'a \<Rightarrow> error + number) \<Rightarrow> 'a \<Rightarrow> 'a list \<Rightarrow> error + 'a list" where
  "insertSorted cmp x [] = Inr [x]"
| "insertSorted cmp x (y # ys) =
     (case cmp x y of
        Inl e \<Rightarrow> Inl e
      | Inr v \<Rightarrow>
          if isPositive v
          then (case insertSorted cmp x ys of Inl e \<Rightarrow> Inl e | Inr zs \<Rightarrow> Inr (y # zs))
          else Inr (x # y # ys))"

fun sortArray :: "('a \<Rightarrow> 'a \<Rightarrow> error + number) \<Rightarrow> 'a list \<Rightarrow> error + 'a list" where
  "sortArray cmp [] = Inr []"
| "sortArray cmp (x # xs) =
     (case sortArray cmp xs of Inl e \<Rightarrow> Inl e | Inr ys \<Rightarrow> insertSorted cmp x ys)"

section \<open>The resolver\<close>

subsection \<open>Easter\<close>

definition calculateEaster :: "int \<Rightarrow> Date" where
  "calculateEaster year =
     (let a = js_rem year 19;
          b = year div 100;
          c = js_rem year 100;
          d = b div 4;
          e = js_rem b 4;
          f = (b + 8) div 25;
          g = (b - f + 1) div 3;
          h = js_rem (19 * a + b - d - g + 15) 30;
          i = c div 4;
          k = js_rem c 4;
          l = js_rem (32 + 2 * e + 2 * i - h - k) 7;
          m = (a + 11 * h + 22 * l) div 451;
          month = (h + l - 7 * m + 114) div 31;
          day = js_rem (h + l - 7 * m + 114) 31 + 1
      in newDate year (month - 1) day)"

subsection \<open>Rules, catalog, options, results\<close>

text \<open>
  \<open>Range from to\<close>, \<open>HolidayOffset holiday start end\<close>,
  \<open>NthWeekday month weekday n duration\<close> (the duration may be absent) and \<open>Always\<close>.
  The holiday is the string of the catalog; the numbers of a rule are integers.
\<close>

datatype DateRule =
    Range string string
  | HolidayOffset string int int
  | NthWeekday int int int "int option"
  | Always

record Metadata =
  actualDate :: "string option"
  description :: "string option"

record ThemeRule =
  name :: string
  rule :: DateRule
  enabled :: "bool option"
  region :: "string list option"
  metadata :: "Metadata option"

record ThemeRulesConfig =
  seasonal :: "ThemeRule list"
  holidays :: "ThemeRule list"
  cultural :: "ThemeRule list"
  everyday :: "ThemeRule list"

record ResolverOptions =
  enabledCultures :: "string list option"
  userRegion :: "string option"

datatype Category = Seasonal | Holidays | Cultural | Everyday

text \<open>A rule of the flattened catalog: the rule with its category.\<close>

type_synonym TaggedRule = "ThemeRule \<times> Category"

text \<open>The fields \<open>name\<close>, \<open>category\<close>, \<open>rule\<close>, \<open>metadata\<close> of a resolved theme.\<close>

record ResolvedTheme =
  theme_name :: string
  theme_category :: Category
  theme_rule :: DateRule
  theme_metadata :: "Metadata option"

subsection \<open>Rule evaluation\<close>

definition isInRange :: "string \<Rightarrow> string \<Rightarrow> Date \<Rightarrow> bool" where
  "isInRange from to date =
     (let month = getMonth date + 1;
          day = getDate date;
          currentDate = padStart2 (toString month) @ ''-'' @ padStart2 (toString day)
      in if str_le from to
         then str_le from currentDate \<and> str_le currentDate to
         else str_le from currentDate \<or> str_le currentDate to)"

definition isHolidayOffsetActive :: "string \<Rightarrow> int \<Rightarrow> int \<Rightarrow> Date \<Rightarrow> int \<Rightarrow> bool" where
  "isHolidayOffsetActive holiday startOffset endOffset date year =
     (if holiday = ''easter''
      then (let holidayDate = calculateEaster year;
                startDate = setDate holidayDate (getDate holidayDate + startOffset);
                endDate = setDate holidayDate (getDate holidayDate + endOffset)
            in startDate \<le> date \<and> date \<le> endDate)
      else False)"

text \<open>
  The loop over the days 1 to 31 of the month: it ends at the first day that falls in
  another month, or at the \<open>n\<close>-th day of the wanted weekday.
\<close>

function findNthWeekday :: "int \<Rightarrow> int \<Rightarrow> int \<Rightarrow> int \<Rightarrow> int \<Rightarrow> int \<Rightarrow> Date option" where
  "findNthWeekday year month weekday n day count =
     (if day \<le> 31
      then (if getMonth (newDate year (month - 1) day) \<noteq> month - 1 then None
            else if getDay (newDate year (month - 1) day) = weekday
                 then (if count + 1 = n then Some (newDate year (month - 1) day)
                       else findNthWeekday year month weekday n (day + 1) (count + 1))
                 else findNthWeekday year month weekday n (day + 1) count)
      else None)"
  by pat_completeness auto

termination
  by (relation "measure (\<lambda>(year, month, weekday, n, day, count). nat (32 - day))") auto

definition isNthWeekdayActive :: "int \<Rightarrow> int \<Rightarrow> int \<Rightarrow> int \<Rightarrow> Date \<Rightarrow> bool" where
  "isNthWeekdayActive month weekday n duration date =
     (let year = getFullYear date
      in case findNthWeekday year month weekday n 1 0 of
           None \<Rightarrow> False
         | Some targetDate \<Rightarrow>
             if duration > 1
             then (let halfDuration = duration div 2;
                       startDate = setDate targetDate (getDate targetDate - halfDuration);
                       endDate = setDate targetDate
                                   (getDate targetDate + (duration - halfDuration - 1))
                   in startDate \<le> date \<and> date \<le> endDate)
             else toDateString date = toDateString targetDate)"

text \<open>\<open>duration || 1\<close>: an absent duration and the duration 0 give 1.\<close>

definition durationOr1 :: "int option \<Rightarrow> int" where
  "durationOr1 d = (case d of None \<Rightarrow> 1 | Some v \<Rightarrow> if v = 0 then 1 else v)"

fun isRuleActive :: "DateRule \<Rightarrow> Date \<Rightarrow> int \<Rightarrow> bool" where
  "isRuleActive (Range from to) date year = isInRange from to date"
| "isRuleActive (HolidayOffset holiday start end) date year =
     isHolidayOffsetActive holiday start end date year"
| "isRuleActive (NthWeekday month weekday n duration) date year =
     isNthWeekdayActive month weekday n (durationOr1 duration) date"
| "isRuleActive Always date year = True"

subsection \<open>Duration\<close>

fun getThemeDuration :: "DateRule \<Rightarrow> int \<Rightarrow> number" where
  "getThemeDuration (Range from to) year =
     (let fromParts = map Number (split CHR ''-'' from);
          toParts = map Number (split CHR ''-'' to)
      in case (element fromParts 0, element fromParts 1, element toParts 0, element toParts 1) of
           (Num fromMonth, Num fromDay, Num toMonth, Num toDay) \<Rightarrow>
             (let startDate = newDate year (fromMonth - 1) fromDay;
                  endDate0 = newDate year (toMonth - 1) toDay;
                  endDate = (if endDate0 < startDate then setFullYear endDate0 (year + 1)
                             else endDate0);
                  diffTime = getTime endDate - getTime startDate
              in Num (- ((- diffTime) div (1000 * 60 * 60 * 24)) + 1))
         | _ \<Rightarrow> NaN)"
| "getThemeDuration (HolidayOffset holiday start end) year = Num (\<bar>end - start\<bar> + 1)"
| "getThemeDuration (NthWeekday month weekday n duration) year = Num (durationOr1 duration)"
| "getThemeDuration Always year = PosInfinity"

subsection \<open>Resolution\<close>

definition allRules :: "ThemeRulesConfig \<Rightarrow> TaggedRule list" where
  "allRules config =
     map (\<lambda>r. (r, Seasonal)) (seasonal config) @
     map (\<lambda>r. (r, Holidays)) (holidays config) @
     map (\<lambda>r. (r, Cultural)) (cultural config) @
     map (\<lambda>r. (r, Everyday)) (everyday config)"

text \<open>
  The filter of the available rules. \<open>rule.region && userRegion && ...\<close> needs a region
  list that is present and a user region that is present and not the empty string.
\<close>

definition isAvailable :: "string list \<Rightarrow> string option \<Rightarrow> TaggedRule \<Rightarrow> bool" where
  "isAvailable cultures usersRegion r =
     (if name (fst r) = ''everyday'' then False
      else if enabled (fst r) = None \<or> enabled (fst r) = Some True then True
      else name (fst r) \<in> set cultures \<or>
           (case (region (fst r), usersRegion) of
              (Some rs, Some u) \<Rightarrow> u \<noteq> [] \<and> u \<in> set rs
            | _ \<Rightarrow> False))"

definition toResolved :: "TaggedRule \<Rightarrow> ResolvedTheme" where
  "toResolved r =
     \<lparr>theme_name = name (fst r), theme_category = snd r,
      theme_rule = rule (fst r), theme_metadata = metadata (fst r)\<rparr>"

text \<open>
  The comparison function of the sort: each theme's rule is looked up again by name in the
  flattened catalog; reading \<open>.rule\<close> of a failed lookup would raise.
\<close>

definition compareThemes ::
  "TaggedRule list \<Rightarrow> int \<Rightarrow> ResolvedTheme \<Rightarrow> ResolvedTheme \<Rightarrow> error + number" where
  "compareThemes rules year a b =
     (case find (\<lambda>r. name (fst r) = theme_name a) rules of
        None \<Rightarrow> Inl TypeError
      | Some ruleA \<Rightarrow>
          (case find (\<lambda>r. name (fst r) = theme_name b) rules of
             None \<Rightarrow> Inl TypeError
           | Some ruleB \<Rightarrow>
               Inr (sub (getThemeDuration (rule (fst ruleA)) year)
                        (getThemeDuration (rule (fst ruleB)) year))))"

text \<open>The destructuring default \<open>enabledCultures = []\<close>.\<close>

definition culturesOf :: "ResolverOptions \<Rightarrow> string list" where
  "culturesOf options = (case enabledCultures options of None \<Rightarrow> [] | Some cs \<Rightarrow> cs)"

definition availableRules :: "ThemeRulesConfig \<Rightarrow> ResolverOptions \<Rightarrow> TaggedRule list" where
  "availableRules config options =
     filter (isAvailable (culturesOf options) (userRegion options)) (allRules config)"

text \<open>The themes pushed by the loop over the available rules, before the sort.\<close>

definition matchingThemes :: "ThemeRulesConfig \<Rightarrow> Date \<Rightarrow> ResolverOptions \<Rightarrow> ResolvedTheme list" where
  "matchingThemes config date options =
     map toResolved
       (filter (\<lambda>r. isRuleActive (rule (fst r)) date (getFullYear date))
          (availableRules config options))"

definition resolveThemesForDate ::
  "ThemeRulesConfig \<Rightarrow> Date \<Rightarrow> ResolverOptions \<Rightarrow> error + ResolvedTheme list" where
  "resolveThemesForDate config date options =
     (case sortArray (compareThemes (allRules config) (getFullYear date))
             (matchingThemes config date options) of
        Inl e \<Rightarrow> Inl e
      | Inr themes \<Rightarrow>
          if length themes = 0
          then (case find (\<lambda>r. name r = ''everyday'') (everyday config) of
                  Some everydayRule \<Rightarrow>
                    Inr [\<lparr>theme_name = ''everyday'', theme_category = Everyday,
                          theme_rule = rule everydayRule,
                          theme_metadata = metadata everydayRule\<rparr>]
                | None \<Rightarrow> Inr [])
          else Inr themes)"

definition resolvePrimaryThemeForDate ::
  "ThemeRulesConfig \<Rightarrow> Date \<Rightarrow> ResolverOptions \<Rightarrow> error + ResolvedTheme option" where
  "resolvePrimaryThemeForDate config date options =
     (case resolveThemesForDate config date options of
        Inl e \<Rightarrow> Inl e
      | Inr themes \<Rightarrow> Inr (if length themes > 0 then Some (themes ! 0) else None))"

subsection \<open>Auxiliary notions for the statements\<close>

text \<open>
  The order of the numbers as a linear order on pairs: \<open>-Infinity\<close>, the integers,
  \<open>Infinity\<close>; \<open>NaN\<close> is given a place of its own, outside the order of the language.
\<close>

definition rank :: "number \<Rightarrow> int \<times> int" where
  "rank v = (case v of Num n \<Rightarrow> (0, n) | PosInfinity \<Rightarrow> (1, 0) | NegInfinity \<Rightarrow> (-1, 0) | NaN \<Rightarrow> (2, 0))"

text \<open>The outcome of the fallback branch: the \<open>everyday\<close> entry, when the catalog has one.\<close>

definition fallbackThemes :: "ThemeRulesConfig \<Rightarrow> ResolvedTheme list" where
  "fallbackThemes config =
     (case find (\<lambda>r. name r = ''everyday'') (everyday config) of
        Some everydayRule \<Rightarrow>
          [\<lparr>theme_name = ''everyday'', theme_category = Everyday,
            theme_rule = rule everydayRule, theme_metadata = metadata everydayRule\<rparr>]
      | None \<Rightarrow> [])"

text \<open>
  The zero-padded month-day string \<open>MM-DD\<close> of a date, written digit by digit: the
  form the range rules are compared with.
\<close>

definition monthDayString :: "Date \<Rightarrow> string" where
  "monthDayString date =
     (let m = nat (getMonth date + 1); d = nat (getDate date)
      in [digitChar (m div 10), digitChar m, CHR ''-'', digitChar (d div 10), digitChar d])"

text \<open>A range string of the form \<open>MM-DD\<close>: two digits, a dash, two digits.\<close>

definition validMonthDay :: "string \<Rightarrow> bool" where
  "validMonthDay s =
     (case s of
        [a, b, c, d, e] \<Rightarrow> isDigit a \<and> isDigit b \<and> c = CHR ''-'' \<and> isDigit d \<and> isDigit e
      | _ \<Rightarrow> False)"

subsection \<open>Catalogs to run the resolver on\<close>

definition plainRule :: "string \<Rightarrow> DateRule \<Rightarrow> ThemeRule" where
  "plainRule n r = \<lparr>name = n, rule = r, enabled = None, region = None, metadata = None\<rparr>"

definition optInRule :: "string \<Rightarrow> DateRule \<Rightarrow> string list \<Rightarrow> ThemeRule" where
  "optInRule n r rs =
     \<lparr>name = n, rule = r, enabled = Some False, region = Some rs, metadata = None\<rparr>"

definition sampleCatalog :: ThemeRulesConfig where
  "sampleCatalog =
     \<lparr>seasonal = [plainRule ''winter'' (Range ''12-01'' ''02-28''),
                  plainRule ''christmas'' (Range ''12-26'' ''01-07'')],
      holidays = [plainRule ''easter'' (HolidayOffset ''easter'' (-2) 0),
                  plainRule ''thanksgiving'' (NthWeekday 11 4 4 (Some 1)),
                  plainRule ''pentecost'' (HolidayOffset ''pentecost'' 49 50)],
      cultural = [optInRule ''diwali'' (Range ''10-20'' ''10-25'') [''india'']],
      everyday = [plainRule ''everyday'' Always]\<rparr>"

text \<open>A catalog with no \<open>everyday\<close> entry and no rule at all.\<close>

definition emptyCatalog :: ThemeRulesConfig where
  "emptyCatalog = \<lparr>seasonal = [], holidays = [], cultural = [], everyday = []\<rparr>"

text \<open>
  A catalog whose seasonal list holds a rule named \<open>everyday\<close> and whose everyday list
  holds a rule of another name.
\<close>

definition swappedCatalog :: ThemeRulesConfig where
  "swappedCatalog =
     \<lparr>seasonal = [plainRule ''everyday'' Always], holidays = [], cultural = [],
      everyday = [plainRule ''idle'' (Range ''06-01'' ''06-30'')]\<rparr>"

definition noOptions :: ResolverOptions where
  "noOptions = \<lparr>enabledCultures = None, userRegion = None\<rparr>"

section \<open>Properties of the calendar\<close>

lemma MonthFromDay_range: "0 \<le> MonthFromDay d \<and> MonthFromDay d \<le> 11"
  by (simp add: MonthFromDay_def Let_def)

lemma MakeDay_fields: "MakeDay (YearFromDay d) (MonthFromDay d) (DateFromDay d + k) = d + k"
proof -
  have m: "MonthFromDay d div 12 = 0" "MonthFromDay d mod 12 = MonthFromDay d"
    using MonthFromDay_range [of d] by auto
  show ?thesis
    by (simp add: MakeDay_def Let_def m DateFromDay_def DayWithinYear_def)
qed

lemma Day_decompose: "Day t * msPerDay + TimeWithinDay t = t"
  by (simp add: Day_def TimeWithinDay_def)

lemma setDate_getDate: "setDate t (getDate t + k) = t + k * msPerDay"
proof -
  have "setDate t (getDate t + k) = (Day t + k) * msPerDay + TimeWithinDay t"
    by (simp add: setDate_def getFullYear_def getMonth_def getDate_def MakeDay_fields)
  also have "\<dots> = (Day t * msPerDay + TimeWithinDay t) + k * msPerDay"
    by (simp add: algebra_simps)
  finally show ?thesis by (simp add: Day_decompose)
qed

lemma newDate_midnight: "\<exists>n. newDate y m d = n * msPerDay"
  by (auto simp add: newDate_def Let_def)

lemma calculateEaster_midnight: "\<exists>n. calculateEaster year = n * msPerDay"
  unfolding calculateEaster_def Let_def by (rule newDate_midnight)

lemma Day_mult: "Day (n * msPerDay) = n" "TimeWithinDay (n * msPerDay) = 0"
  by (simp_all add: Day_def TimeWithinDay_def msPerDay_def)

lemma midnight_le: "(n * msPerDay \<le> t) = (n \<le> Day t)"
  unfolding Day_def msPerDay_def by linarith

lemma le_midnight: "(t \<le> n * msPerDay) = (Day t < n \<or> (Day t = n \<and> TimeWithinDay t = 0))"
proof -
  have t: "t = Day t * 86400000 + TimeWithinDay t"
    by (simp add: Day_def TimeWithinDay_def msPerDay_def)
  have r: "0 \<le> TimeWithinDay t" "TimeWithinDay t < 86400000"
    by (simp_all add: TimeWithinDay_def msPerDay_def)
  have "(Day t * 86400000 + TimeWithinDay t \<le> n * 86400000) = (Day t < n \<or> (Day t = n \<and> TimeWithinDay t = 0))"
    using r by linarith
  then show ?thesis using t by (simp add: msPerDay_def)
qed

lemma year_decomp:
  fixes q a b c :: int
  assumes "0 \<le> a" "a \<le> 3" "0 \<le> b" "b \<le> 24" "0 \<le> c" "c \<le> 3"
  shows "DayFromYear (1601 + 400 * q + 100 * a + 4 * b + c) = 146097 * q + 36524 * a + 1461 * b + 365 * c - 134774"
proof -
  have d4: "(1601 + 400 * q + 100 * a + 4 * b + c - 1969) div 4 = 100 * q + 25 * a + b - 92"
    using assms by linarith
  have d100: "(1601 + 400 * q + 100 * a + 4 * b + c - 1901) div 100 = 4 * q + a - 3"
    using assms by linarith
  have d400: "(1601 + 400 * q + 100 * a + 4 * b + c - 1601) div 400 = q"
    using assms by linarith
  show ?thesis unfolding DayFromYear_def d4 d100 d400 by simp
qed

lemma mod_zero_top:
  fixes v k :: int
  assumes "0 < v" "v \<le> k"
  shows "(v mod k = 0) = (v = k)"
proof (cases "v = k")
  case True
  then show ?thesis by simp
next
  case False
  then have "v mod k = v" using assms by simp
  then show ?thesis using False assms by simp
qed

lemma leap_decomp:
  fixes q a b c :: int
  assumes "0 \<le> a" "a \<le> 3" "0 \<le> b" "b \<le> 24" "0 \<le> c" "c \<le> 3"
  shows "InLeapYear (1601 + 400 * q + 100 * a + 4 * b + c) = (c = 3 \<and> (b \<noteq> 24 \<or> a = 3))"
proof -
  define y where "y = 1601 + 400 * q + 100 * a + 4 * b + c"
  have "y = (c + 1) + 4 * (400 + 100 * q + 25 * a + b)"
    by (simp add: y_def)
  then have "y mod 4 = (c + 1) mod 4"
    by (simp only: mod_mult_self2)
  moreover have "((c + 1) mod 4 = 0) = (c + 1 = 4)"
    using assms by (intro mod_zero_top) linarith+
  ultimately have m4: "(y mod 4 = 0) = (c = 3)" by auto
  have "y = (4 * b + c + 1) + 100 * (16 + 4 * q + a)"
    by (simp add: y_def)
  then have "y mod 100 = (4 * b + c + 1) mod 100"
    by (simp only: mod_mult_self2)
  moreover have "((4 * b + c + 1) mod 100 = 0) = (4 * b + c + 1 = 100)"
    using assms by (intro mod_zero_top) linarith+
  moreover have "(4 * b + c + 1 = 100) = (b = 24 \<and> c = 3)"
    using assms by linarith
  ultimately have m100: "(y mod 100 = 0) = (b = 24 \<and> c = 3)" by simp
  have "y = (100 * a + 4 * b + c + 1) + 400 * (4 + q)"
    by (simp add: y_def)
  then have "y mod 400 = (100 * a + 4 * b + c + 1) mod 400"
    by (simp only: mod_mult_self2)
  moreover have "((100 * a + 4 * b + c + 1) mod 400 = 0) = (100 * a + 4 * b + c + 1 = 400)"
    using assms by (intro mod_zero_top) linarith+
  moreover have "(100 * a + 4 * b + c + 1 = 400) = (a = 3 \<and> b = 24 \<and> c = 3)"
    using assms by linarith
  ultimately have m400: "(y mod 400 = 0) = (a = 3 \<and> b = 24 \<and> c = 3)" by simp
  show ?thesis unfolding InLeapYear_def y_def [symmetric] m4 m100 m400 by auto
qed

text \<open>Every year has its place in the 400-year cycle; the next year starts 365 or 366 days later.\<close>

lemma year_parts:
  fixes y :: int
  obtains q a b c where "y = 1601 + 400 * q + 100 * a + 4 * b + c"
    "0 \<le> a" "a \<le> 3" "0 \<le> b" "b \<le> 24" "0 \<le> c" "c \<le> 3"
proof -
  define r where "r = (y - 1601) mod 400"
  define r' where "r' = r mod 100"
  have r: "0 \<le> r" "r < 400" by (simp_all add: r_def)
  have r': "0 \<le> r'" "r' < 100" by (simp_all add: r'_def)
  have 1: "y - 1601 = 400 * ((y - 1601) div 400) + r" by (simp add: r_def)
  have 2: "r = 100 * (r div 100) + r'" by (simp add: r'_def)
  have 3: "r' = 4 * (r' div 4) + r' mod 4" by simp
  have a: "0 \<le> r div 100" "r div 100 \<le> 3" using r by linarith+
  have b: "0 \<le> r' div 4" "r' div 4 \<le> 24" using r' by linarith+
  have c: "0 \<le> r' mod 4" "r' mod 4 \<le> 3" by simp_all
  have "y = 1601 + 400 * ((y - 1601) div 400) + 100 * (r div 100) + 4 * (r' div 4) + r' mod 4"
    using 1 2 3 by linarith
  then show thesis using a b c that by blast
qed

lemma DayFromYear_next: "DayFromYear (y + 1) = DayFromYear y + 365 + leapDays y"
proof -
  obtain q a b c where y: "y = 1601 + 400 * q + 100 * a + 4 * b + c"
    and r: "0 \<le> a" "a \<le> 3" "0 \<le> b" "b \<le> 24" "0 \<le> c" "c \<le> 3"
    by (rule year_parts)
  have d: "DayFromYear y = 146097 * q + 36524 * a + 1461 * b + 365 * c - 134774"
    unfolding y by (rule year_decomp [OF r])
  have l: "leapDays y = (if c = 3 \<and> (b \<noteq> 24 \<or> a = 3) then 1 else 0)"
    unfolding leapDays_def y leap_decomp [OF r] by simp
  consider "c < 3" | "c = 3" "b < 24" | "c = 3" "b = 24" "a < 3" | "c = 3" "b = 24" "a = 3"
    using r by linarith
  then show ?thesis
  proof cases
    case 1
    have "y + 1 = 1601 + 400 * q + 100 * a + 4 * b + (c + 1)" using y by simp
    moreover have "DayFromYear (1601 + 400 * q + 100 * a + 4 * b + (c + 1)) =
        146097 * q + 36524 * a + 1461 * b + 365 * (c + 1) - 134774"
      using r 1 by (intro year_decomp) simp_all
    ultimately show ?thesis using d l 1 by simp
  next
    case 2
    have "y + 1 = 1601 + 400 * q + 100 * a + 4 * (b + 1) + 0" using y 2 by simp
    moreover have "DayFromYear (1601 + 400 * q + 100 * a + 4 * (b + 1) + 0) =
        146097 * q + 36524 * a + 1461 * (b + 1) + 365 * 0 - 134774"
      using r 2 by (intro year_decomp) simp_all
    ultimately show ?thesis using d l 2 by simp
  next
    case 3
    have "y + 1 = 1601 + 400 * q + 100 * (a + 1) + 4 * 0 + 0" using y 3 by simp
    moreover have "DayFromYear (1601 + 400 * q + 100 * (a + 1) + 4 * 0 + 0) =
        146097 * q + 36524 * (a + 1) + 1461 * 0 + 365 * 0 - 134774"
      using r 3 by (intro year_decomp) simp_all
    ultimately show ?thesis using d l 3 by simp
  next
    case 4
    have "y + 1 = 1601 + 400 * (q + 1) + 100 * 0 + 4 * 0 + 0" using y 4 by simp
    moreover have "DayFromYear (1601 + 400 * (q + 1) + 100 * 0 + 4 * 0 + 0) =
        146097 * (q + 1) + 36524 * 0 + 1461 * 0 + 365 * 0 - 134774"
      by (intro year_decomp) simp_all
    ultimately show ?thesis using d l 4 by simp
  qed
qed

lemma DayWithinYear_bounds:
  "0 \<le> DayWithinYear d \<and> DayWithinYear d < 365 + leapDays (YearFromDay d)"
proof -
  define n where "n = d + 134774"
  define q where "q = n div 146097"
  define r where "r = n mod 146097"
  define a where "a = min 3 (r div 36524)"
  define r1 where "r1 = r - a * 36524"
  define b where "b = r1 div 1461"
  define r2 where "r2 = r1 mod 1461"
  define c where "c = min 3 (r2 div 365)"
  have y: "YearFromDay d = 1601 + 400 * q + 100 * a + 4 * b + c"
    by (simp add: YearFromDay_def Let_def n_def q_def r_def a_def r1_def b_def r2_def c_def)
  have rr: "0 \<le> r" "r < 146097" by (simp_all add: r_def)
  have aa: "0 \<le> a" "a \<le> 3" using rr by (simp_all add: a_def)
  have r1a: "0 \<le> r1" using rr unfolding r1_def a_def min_def by (simp split: if_splits) linarith
  have r1b: "r1 \<le> 36524" using rr unfolding r1_def a_def min_def by (simp split: if_splits) linarith
  have r1c: "a < 3 \<longrightarrow> r1 < 36524"
    using rr unfolding r1_def a_def min_def by (simp split: if_splits) linarith
  have bb: "0 \<le> b" "b \<le> 24" using r1a r1b unfolding b_def by linarith+
  have r2r: "0 \<le> r2" "r2 \<le> 1460" "r1 = 1461 * b + r2" by (simp_all add: r2_def b_def)
  have cc: "0 \<le> c" "c \<le> 3" using r2r by (simp_all add: c_def)
  define r3 where "r3 = r2 - 365 * c"
  have r3a: "0 \<le> r3" using r2r unfolding r3_def c_def min_def by (simp split: if_splits) linarith
  have r3b: "r3 \<le> 365" using r2r unfolding r3_def c_def min_def by (simp split: if_splits) linarith
  have r3c: "c < 3 \<longrightarrow> r3 < 365"
    using r2r unfolding r3_def c_def min_def by (simp split: if_splits) linarith
  have nn: "n = 146097 * q + r" by (simp add: q_def r_def)
  have "d = 146097 * q + 36524 * a + 1461 * b + 365 * c + r3 - 134774"
    using nn r2r(3) unfolding r3_def r1_def n_def by linarith
  then have w: "DayWithinYear d = r3"
    unfolding DayWithinYear_def y using year_decomp [OF aa bb cc, of q] by linarith
  have l: "leapDays (YearFromDay d) = (if c = 3 \<and> (b \<noteq> 24 \<or> a = 3) then 1 else 0)"
    unfolding leapDays_def y leap_decomp [OF aa bb cc] by simp
  have "r3 = 365 \<longrightarrow> c = 3 \<and> (b \<noteq> 24 \<or> a = 3)"
  proof
    assume e: "r3 = 365"
    then have c3: "c = 3" using r3c cc by linarith
    have "b = 24 \<longrightarrow> a = 3"
    proof
      assume "b = 24"
      then have "r1 = 36524" using r2r(3) e c3 unfolding r3_def by linarith
      then show "a = 3" using r1c aa by linarith
    qed
    then show "c = 3 \<and> (b \<noteq> 24 \<or> a = 3)" using c3 by auto
  qed
  then show ?thesis using w l r3a r3b by auto
qed

text \<open>The year of a day is the year whose first day is the last one not after it.\<close>

lemma YearFromDay_bounds:
  "DayFromYear (YearFromDay d) \<le> d \<and> d < DayFromYear (YearFromDay d + 1)"
  using DayWithinYear_bounds [of d] by (simp add: DayFromYear_next DayWithinYear_def)

lemma leapDays_cases: "leapDays y = 0 \<or> leapDays y = 1"
  by (simp add: leapDays_def)

lemma DateFromDay_range: "1 \<le> DateFromDay d \<and> DateFromDay d \<le> 31"
proof -
  define w where "w = DayWithinYear d"
  define l where "l = leapDays (YearFromDay d)"
  have b: "0 \<le> w" "w < 365 + l" using DayWithinYear_bounds [of d] by (simp_all add: w_def l_def)
  have l: "l = 0 \<or> l = 1" using leapDays_cases by (simp add: l_def)
  have e: "DateFromDay d =
     w - daysBeforeMonth l
           (if w < 31 then 0 else if w < 59 + l then 1 else if w < 90 + l then 2
            else if w < 120 + l then 3 else if w < 151 + l then 4 else if w < 181 + l then 5
            else if w < 212 + l then 6 else if w < 243 + l then 7 else if w < 273 + l then 8
            else if w < 304 + l then 9 else if w < 334 + l then 10 else 11) + 1"
    by (simp add: DateFromDay_def MonthFromDay_def Let_def w_def l_def)
  from l show ?thesis
  proof
    assume "l = 0"
    then show ?thesis using b unfolding e daysBeforeMonth_def by simp
  next
    assume "l = 1"
    then show ?thesis using b unfolding e daysBeforeMonth_def by simp
  qed
qed

section \<open>Properties of the sort and of the resolution\<close>

lemma isPositive_sub: "x \<noteq> NaN \<Longrightarrow> y \<noteq> NaN \<Longrightarrow> isPositive (sub x y) = (rank y < rank x)"
  by (cases x; cases y) (auto simp: isPositive_def rank_def)

lemma num_le_rank: "x \<noteq> NaN \<Longrightarrow> y \<noteq> NaN \<Longrightarrow> num_le x y = (rank x \<le> rank y)"
  by (cases x; cases y) (auto simp: rank_def)

lemma insertSorted_insort:
  assumes "\<forall>y \<in> set ys. \<exists>v. cmp x y = Inr v \<and> isPositive v = (k y < k x)"
  shows "insertSorted cmp x ys = Inr (insort_key k x ys)"
  using assms by (induction ys) (auto simp: not_less)

lemma sortArray_sort_key:
  assumes "\<forall>x \<in> set xs. \<forall>y \<in> set xs. \<exists>v. cmp x y = Inr v \<and> isPositive v = (k y < k x)"
  shows "sortArray cmp xs = Inr (sort_key k xs)"
  using assms
proof (induction xs)
  case Nil
  then show ?case by simp
next
  case (Cons x xs)
  then have "sortArray cmp xs = Inr (sort_key k xs)" by simp
  moreover have "insertSorted cmp x (sort_key k xs) = Inr (insort_key k x (sort_key k xs))"
    using Cons.prems by (intro insertSorted_insort) simp
  ultimately show ?case by simp
qed

lemma insertSorted_total:
  assumes "\<forall>y \<in> set ys. \<exists>v. cmp x y = Inr v"
  shows "\<exists>zs. insertSorted cmp x ys = Inr zs \<and> set zs = insert x (set ys) \<and> length zs = Suc (length ys)"
  using assms
proof (induction ys)
  case Nil
  then show ?case by simp
next
  case (Cons y ys)
  then obtain v where v: "cmp x y = Inr v" by auto
  from Cons obtain zs where zs: "insertSorted cmp x ys = Inr zs" "set zs = insert x (set ys)" "length zs = Suc (length ys)"
    by auto
  show ?case using v zs by auto
qed

lemma sortArray_total:
  assumes "\<forall>x \<in> set xs. \<forall>y \<in> set xs. \<exists>v. cmp x y = Inr v"
  shows "\<exists>ys. sortArray cmp xs = Inr ys \<and> set ys = set xs \<and> length ys = length xs"
  using assms
proof (induction xs)
  case Nil
  then show ?case by simp
next
  case (Cons x xs)
  then obtain ys where ys: "sortArray cmp xs = Inr ys" "set ys = set xs" "length ys = length xs"
    by auto
  have "\<forall>y \<in> set ys. \<exists>v. cmp x y = Inr v" using Cons.prems ys by simp
  from insertSorted_total [of ys cmp x, OF this] obtain zs where
    "insertSorted cmp x ys = Inr zs" "set zs = insert x (set ys)" "length zs = Suc (length ys)"
    by auto
  then show ?case using ys by auto
qed

lemma find_member:
  assumes "x \<in> set xs" and "P x"
  shows "\<exists>y. find P xs = Some y \<and> y \<in> set xs \<and> P y"
  using assms by (induction xs) auto

lemma find_name:
  assumes "r \<in> set rules"
  shows "\<exists>r'. find (\<lambda>x. name (fst x) = name (fst r)) rules = Some r' \<and> r' \<in> set rules
            \<and> name (fst r') = name (fst r)"
  using find_member [of r rules "\<lambda>x. name (fst x) = name (fst r)"] assms by simp

lemma find_name_distinct:
  assumes "r \<in> set rules" and "distinct (map (\<lambda>x. name (fst x)) rules)"
  shows "find (\<lambda>x. name (fst x) = name (fst r)) rules = Some r"
proof -
  from find_name [OF assms(1)] obtain r' where
    r': "find (\<lambda>x. name (fst x) = name (fst r)) rules = Some r'" "r' \<in> set rules"
        "name (fst r') = name (fst r)" by blast
  have "inj_on (\<lambda>x. name (fst x)) (set rules)"
    using assms(2) by (simp add: distinct_map)
  then have "r' = r" using r' assms(1) by (auto dest: inj_onD)
  then show ?thesis using r' by simp
qed

lemma matching_origin:
  assumes "t \<in> set (matchingThemes config date options)"
  shows "\<exists>r \<in> set (allRules config). t = toResolved r
           \<and> isAvailable (culturesOf options) (userRegion options) r
           \<and> isRuleActive (rule (fst r)) date (getFullYear date)"
  using assms by (auto simp: matchingThemes_def availableRules_def)

lemma toResolved_simps:
  "theme_name (toResolved r) = name (fst r)"
  "theme_category (toResolved r) = snd r"
  "theme_rule (toResolved r) = rule (fst r)"
  "theme_metadata (toResolved r) = metadata (fst r)"
  by (simp_all add: toResolved_def)

lemma compareThemes_total:
  assumes "a \<in> set (matchingThemes config date options)"
      and "b \<in> set (matchingThemes config date options)"
  shows "\<exists>v. compareThemes (allRules config) year a b = Inr v"
proof -
  from matching_origin [OF assms(1)] obtain ra where
    ra: "ra \<in> set (allRules config)" "a = toResolved ra" by blast
  from matching_origin [OF assms(2)] obtain rb where
    rb: "rb \<in> set (allRules config)" "b = toResolved rb" by blast
  from find_name [OF ra(1)] obtain ra' where
    "find (\<lambda>x. name (fst x) = theme_name a) (allRules config) = Some ra'"
    using ra(2) by (auto simp: toResolved_simps)
  moreover from find_name [OF rb(1)] obtain rb' where
    "find (\<lambda>x. name (fst x) = theme_name b) (allRules config) = Some rb'"
    using rb(2) by (auto simp: toResolved_simps)
  ultimately show ?thesis by (simp add: compareThemes_def)
qed

lemma compareThemes_distinct:
  assumes "a \<in> set (matchingThemes config date options)"
      and "b \<in> set (matchingThemes config date options)"
      and "distinct (map (\<lambda>x. name (fst x)) (allRules config))"
  shows "compareThemes (allRules config) year a b =
           Inr (sub (getThemeDuration (theme_rule a) year) (getThemeDuration (theme_rule b) year))"
proof -
  from matching_origin [OF assms(1)] obtain ra where
    ra: "ra \<in> set (allRules config)" "a = toResolved ra" by blast
  from matching_origin [OF assms(2)] obtain rb where
    rb: "rb \<in> set (allRules config)" "b = toResolved rb" by blast
  have "find (\<lambda>x. name (fst x) = theme_name a) (allRules config) = Some ra"
    using find_name_distinct [OF ra(1) assms(3)] ra(2) by (simp add: toResolved_simps)
  moreover have "find (\<lambda>x. name (fst x) = theme_name b) (allRules config) = Some rb"
    using find_name_distinct [OF rb(1) assms(3)] rb(2) by (simp add: toResolved_simps)
  ultimately show ?thesis using ra(2) rb(2) by (simp add: compareThemes_def toResolved_simps)
qed

lemma sort_matching_total:
  "\<exists>themes. sortArray (compareThemes (allRules config) year) (matchingThemes config date options)
              = Inr themes
     \<and> set themes = set (matchingThemes config date options)
     \<and> length themes = length (matchingThemes config date options)"
  by (rule sortArray_total) (blast intro: compareThemes_total)

lemma resolve_cases:
  "\<exists>themes. resolveThemesForDate config date options = Inr themes
     \<and> (if matchingThemes config date options = [] then themes = fallbackThemes config
         else set themes = set (matchingThemes config date options)
              \<and> length themes = length (matchingThemes config date options)
              \<and> sortArray (compareThemes (allRules config) (getFullYear date))
                    (matchingThemes config date options) = Inr themes)"
proof -
  from sort_matching_total [of config "getFullYear date" date options] obtain ts where
    ts: "sortArray (compareThemes (allRules config) (getFullYear date))
           (matchingThemes config date options) = Inr ts"
        "set ts = set (matchingThemes config date options)"
        "length ts = length (matchingThemes config date options)" by blast
  show ?thesis
  proof (cases "matchingThemes config date options = []")
    case True
    then have "ts = []" using ts(3) by simp
    then show ?thesis using ts(1) True
      by (auto simp: resolveThemesForDate_def fallbackThemes_def split: option.splits)
  next
    case False
    then have "ts \<noteq> []" using ts(3) by auto
    then show ?thesis using ts False
      by (auto simp: resolveThemesForDate_def)
  qed
qed

section \<open>Properties of the rules\<close>

text \<open>
  The window of an Easter rule in day numbers: from the start offset to the end offset,
  both taken as written, and up to the first instant of the last day.
\<close>

lemma holiday_window:
  "isHolidayOffsetActive ''easter'' s e date year =
     (Day (calculateEaster year) + s \<le> Day date \<and>
      (Day date < Day (calculateEaster year) + e \<or>
       (Day date = Day (calculateEaster year) + e \<and> TimeWithinDay date = 0)))"
proof -
  obtain n where n: "calculateEaster year = n * msPerDay"
    using calculateEaster_midnight by blast
  have "isHolidayOffsetActive ''easter'' s e date year =
          ((n + s) * msPerDay \<le> date \<and> date \<le> (n + e) * msPerDay)"
    by (simp add: isHolidayOffsetActive_def Let_def setDate_getDate) (simp add: n algebra_simps)
  then show ?thesis
    by (simp add: midnight_le le_midnight n Day_mult)
qed

text \<open>
  The string that \<open>isInRange\<close> builds is the zero-padded month-day string: the month
  is between 1 and 12 and the day between 1 and 31.
\<close>

lemma digitChar_0: "digitChar 0 = CHR ''0''"
  by (simp add: digitChar_def)

lemma padStart2_two_digits:
  assumes "0 \<le> i" and "i < 100"
  shows "padStart2 (toString i) = [digitChar (nat i div 10), digitChar (nat i)]"
proof -
  define k where "k = nat i"
  have k: "k < 100" and t: "toString i = natToString k"
    using assms by (simp_all add: k_def toString_def)
  show ?thesis
  proof (cases "k < 10")
    case True
    then have "natToString k = [digitChar k]" by simp
    then show ?thesis using True t by (simp add: padStart2_def digitChar_0 k_def [symmetric])
  next
    case False
    then have "k div 10 < 10" using k by simp
    then have "natToString (k div 10) = [digitChar (k div 10)]" by simp
    then have "natToString k = [digitChar (k div 10), digitChar k]"
      using False by (subst natToString.simps) simp
    then show ?thesis using t by (simp add: padStart2_def k_def [symmetric])
  qed
qed

lemma currentDate_monthDayString:
  "padStart2 (toString (getMonth date + 1)) @ ''-'' @ padStart2 (toString (getDate date))
     = monthDayString date"
proof -
  have m: "0 \<le> getMonth date + 1" "getMonth date + 1 < 100"
    using MonthFromDay_range [of "Day date"] by (simp_all add: getMonth_def)
  have d: "0 \<le> getDate date" "getDate date < 100"
    using DateFromDay_range [of "Day date"] by (simp_all add: getDate_def)
  show ?thesis
    by (simp add: padStart2_two_digits [OF m] padStart2_two_digits [OF d] monthDayString_def Let_def)
qed

text \<open>
  The duration of a rule is a number or \<open>Infinity\<close>; it is \<open>NaN\<close> only for a range
  whose strings are not of the form \<open>MM-DD\<close>.
\<close>

lemma digit_not_dash: "isDigit c \<Longrightarrow> c \<noteq> CHR ''-''"
  by (auto simp: isDigit_def)

lemma validMonthDay_parts:
  assumes "validMonthDay s"
  shows "\<exists>m d. element (map Number (split CHR ''-'' s)) 0 = Num m \<and>
               element (map Number (split CHR ''-'' s)) 1 = Num d"
proof -
  from assms obtain a b d e where
    s: "s = [a, b, CHR ''-'', d, e]" and g: "isDigit a" "isDigit b" "isDigit d" "isDigit e"
    by (auto simp: validMonthDay_def split: list.splits)
  have "split CHR ''-'' s = [[a, b], [d, e]]"
    using g digit_not_dash by (simp add: s)
  then show ?thesis using g by (simp add: element_def Number_def)
qed

lemma range_duration_number:
  assumes "validMonthDay from" and "validMonthDay to"
  shows "\<exists>n. getThemeDuration (Range from to) year = Num n"
proof -
  from validMonthDay_parts [OF assms(1)] obtain fm fd where
    f: "element (map Number (split CHR ''-'' from)) 0 = Num fm"
       "element (map Number (split CHR ''-'' from)) 1 = Num fd" by blast
  from validMonthDay_parts [OF assms(2)] obtain tm td where
    t: "element (map Number (split CHR ''-'' to)) 0 = Num tm"
       "element (map Number (split CHR ''-'' to)) 1 = Num td" by blast
  show ?thesis using f t by (simp add: Let_def del: split.simps)
qed

lemma duration_not_NaN:
  "getThemeDuration r year = NaN \<Longrightarrow> \<exists>from to. r = Range from to \<and> \<not> (validMonthDay from \<and> validMonthDay to)"
proof (cases r)
  case (Range a b)
  assume "getThemeDuration r year = NaN"
  then show ?thesis using Range range_duration_number [of a b year] by auto
qed simp_all

section \<open>Properties of the resolution\<close>

lemma rank_inj: "(rank x = rank y) = (x = y)"
  by (cases x; cases y) (auto simp: rank_def)

lemma fallbackThemes_short: "length (fallbackThemes config) \<le> 1"
  by (simp add: fallbackThemes_def split: option.splits)

lemma fallbackThemes_name: "t \<in> set (fallbackThemes config) \<Longrightarrow> theme_name t = ''everyday''"
  by (auto simp: fallbackThemes_def split: option.splits)

lemma fallbackThemes_empty:
  "(fallbackThemes config = []) = (find (\<lambda>r. name r = ''everyday'') (everyday config) = None)"
  by (simp add: fallbackThemes_def split: option.splits)

lemma everyday_tagged:
  "r \<in> set (allRules config) \<Longrightarrow> snd r = Everyday \<Longrightarrow> fst r \<in> set (everyday config)"
  by (auto simp: allRules_def)

lemma everyday_list_tagged: "q \<in> set (everyday config) \<Longrightarrow> (q, Everyday) \<in> set (allRules config)"
  by (simp add: allRules_def)

lemma everyday_not_available: "name (fst r) = ''everyday'' \<Longrightarrow> \<not> isAvailable cs ur r"
  by (simp add: isAvailable_def)

lemma matching_not_everyday:
  "t \<in> set (matchingThemes config date options) \<Longrightarrow> theme_name t \<noteq> ''everyday''"
  using matching_origin [of t config date options] everyday_not_available
  by (auto simp: toResolved_simps)

lemma not_available:
  assumes "enabled (fst r) = Some False" and "name (fst r) \<notin> set cs"
      and "\<not> (\<exists>rs u. region (fst r) = Some rs \<and> ur = Some u \<and> rs \<noteq> [] \<and> u \<in> set rs)"
  shows "\<not> isAvailable cs ur r"
  using assms by (auto simp: isAvailable_def split: option.splits)

lemma available_by_default:
  assumes "name (fst r) \<noteq> ''everyday''" and "enabled (fst r) \<noteq> Some False"
  shows "isAvailable cs ur r"
proof (cases "enabled (fst r)")
  case None
  then show ?thesis using assms(1) by (simp add: isAvailable_def)
next
  case (Some b)
  then have "enabled (fst r) = Some True" using assms(2) by (cases b) auto
  then show ?thesis using assms(1) by (simp add: isAvailable_def)
qed

lemma isAvailable_other_name:
  assumes "name q \<noteq> ''everyday''"
  shows "isAvailable cs ur (q, c) =
           (enabled q \<noteq> Some False \<or> name q \<in> set cs \<or>
            (\<exists>rs u. region q = Some rs \<and> ur = Some u \<and> u \<noteq> [] \<and> u \<in> set rs))"
proof (cases "enabled q")
  case None
  then show ?thesis using assms by (simp add: isAvailable_def)
next
  case (Some b)
  then show ?thesis using assms
    by (cases b) (auto simp: isAvailable_def split: option.splits)
qed

lemma same_name_same_rule:
  assumes "distinct (map (\<lambda>r. name (fst r)) rules)"
      and "r \<in> set rules" and "r' \<in> set rules" and "name (fst r') = name (fst r)"
  shows "r' = r"
proof -
  have "inj_on (\<lambda>x. name (fst x)) (set rules)"
    using assms(1) by (simp add: distinct_map)
  then show ?thesis using assms(2-4) by (auto dest: inj_onD)
qed

section \<open>The claims\<close>

subsection \<open>Order of the result\<close>

text \<open>
  Claim C1. For a catalog whose rule names are distinct and whose rules have a duration
  other than \<open>NaN\<close> in the year of the date: the resolution returns a list that is
  sorted by the duration of each entry's own rule in that year, and, when some rule
  matches, the entries of each duration are in the order of the matching themes, which is
  the order of the flattened catalog (seasonal, holidays, cultural, everyday).
\<close>

theorem resolveThemes_sorted_stable:
  assumes "distinct (map (\<lambda>r. name (fst r)) (allRules config))"
      and "\<forall>r\<in>set (allRules config). getThemeDuration (rule (fst r)) (getFullYear date) \<noteq> NaN"
  shows "\<exists>themes. resolveThemesForDate config date options = Inr themes \<and>
           sorted_wrt (\<lambda>a b. num_le (getThemeDuration (theme_rule a) (getFullYear date))
                                 (getThemeDuration (theme_rule b) (getFullYear date))) themes \<and>
           (matchingThemes config date options \<noteq> [] \<longrightarrow>
              (\<forall>k. filter (\<lambda>t. getThemeDuration (theme_rule t) (getFullYear date) = k) themes =
                   filter (\<lambda>t. getThemeDuration (theme_rule t) (getFullYear date) = k)
                     (matchingThemes config date options)))"
proof -
  let ?y = "getFullYear date"
  let ?M = "matchingThemes config date options"
  let ?dur = "\<lambda>t. getThemeDuration (theme_rule t) ?y"
  let ?key = "\<lambda>t. rank (?dur t)"
  have nn: "?dur t \<noteq> NaN" if "t \<in> set ?M" for t
    using matching_origin [OF that] assms(2) by (auto simp: toResolved_simps)
  have cmp: "\<forall>a\<in>set ?M. \<forall>b\<in>set ?M.
               \<exists>v. compareThemes (allRules config) ?y a b = Inr v \<and> isPositive v = (?key b < ?key a)"
    using compareThemes_distinct [OF _ _ assms(1)] isPositive_sub nn by simp
  have srt: "sortArray (compareThemes (allRules config) ?y) ?M = Inr (sort_key ?key ?M)"
    by (rule sortArray_sort_key [OF cmp])
  from resolve_cases [of config date options] obtain themes where
    res: "resolveThemesForDate config date options = Inr themes"
    and sh: "if ?M = [] then themes = fallbackThemes config
             else set themes = set ?M \<and> length themes = length ?M \<and>
                  sortArray (compareThemes (allRules config) ?y) ?M = Inr themes"
    by blast
  show ?thesis
  proof (cases "?M = []")
    case True
    then have "themes = fallbackThemes config" using sh by simp
    then have "length themes \<le> 1" using fallbackThemes_short by simp
    then have "sorted_wrt (\<lambda>a b. num_le (?dur a) (?dur b)) themes"
      by (cases themes) (auto simp: Suc_le_eq)
    then show ?thesis using res True by simp
  next
    case False
    then have th: "themes = sort_key ?key ?M" using sh srt by simp
    have "sorted (map ?key themes)" unfolding th by (rule sorted_sort_key)
    then have "sorted_wrt (\<lambda>a b. ?key a \<le> ?key b) themes"
      by (simp add: sorted_map)
    moreover have "\<And>a b. a \<in> set themes \<Longrightarrow> b \<in> set themes \<Longrightarrow> ?key a \<le> ?key b
                     \<Longrightarrow> num_le (?dur a) (?dur b)"
      using nn num_le_rank unfolding th by simp
    ultimately have s: "sorted_wrt (\<lambda>a b. num_le (?dur a) (?dur b)) themes"
      by (rule sorted_wrt_mono_rel [rotated])
    have "filter (\<lambda>t. ?dur t = k) themes = filter (\<lambda>t. ?dur t = k) ?M" for k
      using sort_key_stable [of ?key "rank k" ?M] unfolding th by (simp add: rank_inj)
    then show ?thesis using res s by blast
  qed
qed

theorem resolveThemes_sorted_stable_witness:
  "distinct (map (\<lambda>r. name (fst r)) (allRules sampleCatalog)) \<and>
   list_all (\<lambda>r. getThemeDuration (rule (fst r)) (getFullYear (newDateTime 2025 11 31 9 0)) \<noteq> NaN)
     (allRules sampleCatalog) \<and>
   matchingThemes sampleCatalog (newDateTime 2025 11 31 9 0) noOptions =
     [toResolved (plainRule ''winter'' (Range ''12-01'' ''02-28''), Seasonal),
      toResolved (plainRule ''christmas'' (Range ''12-26'' ''01-07''), Seasonal)] \<and>
   (\<exists>themes. resolveThemesForDate sampleCatalog (newDateTime 2025 11 31 9 0) noOptions = Inr themes \<and>
      sorted_wrt (\<lambda>a b. num_le (getThemeDuration (theme_rule a) (getFullYear (newDateTime 2025 11 31 9 0)))
                            (getThemeDuration (theme_rule b) (getFullYear (newDateTime 2025 11 31 9 0)))) themes)"
proof -
  have d: "distinct (map (\<lambda>r. name (fst r)) (allRules sampleCatalog))"
    by code_simp
  have n: "\<forall>r\<in>set (allRules sampleCatalog).
       getThemeDuration (rule (fst r)) (getFullYear (newDateTime 2025 11 31 9 0)) \<noteq> NaN"
    by code_simp
  have m: "matchingThemes sampleCatalog (newDateTime 2025 11 31 9 0) noOptions =
     [toResolved (plainRule ''winter'' (Range ''12-01'' ''02-28''), Seasonal),
      toResolved (plainRule ''christmas'' (Range ''12-26'' ''01-07''), Seasonal)]"
    by code_simp
  show ?thesis
    unfolding list_all_iff
    using resolveThemes_sorted_stable [OF d n, of noOptions] d n m by blast
qed

subsection \<open>The fallback\<close>

text \<open>
  Claim C2. For a catalog whose everyday list is the single entry named \<open>everyday\<close>:
  when no available rule of the seasonal, holidays and cultural lists is active for the
  date, the result is exactly the \<open>everyday\<close> entry, built from that catalog entry.
\<close>

theorem fallback_when_nothing_active:
  assumes "everyday config = [e]" and "name e = ''everyday''"
      and "\<forall>r\<in>set (allRules config). snd r \<noteq> Everyday \<longrightarrow>
             isAvailable (culturesOf options) (userRegion options) r \<longrightarrow>
             \<not> isRuleActive (rule (fst r)) date (getFullYear date)"
  shows "resolveThemesForDate config date options =
           Inr [\<lparr>theme_name = ''everyday'', theme_category = Everyday,
                 theme_rule = rule e, theme_metadata = metadata e\<rparr>]"
proof -
  have "t \<notin> set (matchingThemes config date options)" for t
  proof
    assume "t \<in> set (matchingThemes config date options)"
    from matching_origin [OF this] obtain r where
      r: "r \<in> set (allRules config)" "isAvailable (culturesOf options) (userRegion options) r"
         "isRuleActive (rule (fst r)) date (getFullYear date)" by blast
    show False
    proof (cases "snd r = Everyday")
      case True
      then have "fst r = e" using everyday_tagged [OF r(1)] assms(1) by simp
      then show False using r(2) assms(2) everyday_not_available by blast
    next
      case False
      then show False using r assms(3) by blast
    qed
  qed
  then have m: "matchingThemes config date options = []"
    by (cases "matchingThemes config date options") auto
  from resolve_cases [of config date options] m
  have "resolveThemesForDate config date options = Inr (fallbackThemes config)" by auto
  then show ?thesis using assms(1,2) by (simp add: fallbackThemes_def)
qed

theorem fallback_when_nothing_active_witness:
  "everyday sampleCatalog = [plainRule ''everyday'' Always] \<and>
   name (plainRule ''everyday'' Always) = ''everyday'' \<and>
   list_all (\<lambda>r. snd r \<noteq> Everyday \<longrightarrow>
       isAvailable (culturesOf noOptions) (userRegion noOptions) r \<longrightarrow>
       \<not> isRuleActive (rule (fst r)) (newDateTime 2025 5 15 12 0)
           (getFullYear (newDateTime 2025 5 15 12 0))) (allRules sampleCatalog) \<and>
   resolveThemesForDate sampleCatalog (newDateTime 2025 5 15 12 0) noOptions =
     Inr [\<lparr>theme_name = ''everyday'', theme_category = Everyday,
           theme_rule = rule (plainRule ''everyday'' Always),
           theme_metadata = metadata (plainRule ''everyday'' Always)\<rparr>]"
proof -
  have a: "everyday sampleCatalog = [plainRule ''everyday'' Always]"
    by (simp add: sampleCatalog_def)
  have b: "name (plainRule ''everyday'' Always) = ''everyday''"
    by (simp add: plainRule_def)
  have c: "\<forall>r\<in>set (allRules sampleCatalog). snd r \<noteq> Everyday \<longrightarrow>
       isAvailable (culturesOf noOptions) (userRegion noOptions) r \<longrightarrow>
       \<not> isRuleActive (rule (fst r)) (newDateTime 2025 5 15 12 0)
           (getFullYear (newDateTime 2025 5 15 12 0))"
    by code_simp
  show ?thesis
    unfolding list_all_iff
    using fallback_when_nothing_active [OF a b c] a b c by blast
qed

subsection \<open>Holiday offsets\<close>

text \<open>
  Claim C3, as the code has it. The offsets are used as written, the first as the start
  and the second as the end of the window, with no exchange of the two. With \<open>h\<close> the
  day of Easter in the year of the target date: a target on a day before \<open>h + start\<close> or
  after \<open>h + end\<close> is inactive; a target on a day from \<open>h + start\<close> to the day before
  \<open>h + end\<close> is active at any time of the day; a target at the first instant of the day
  \<open>h + end\<close> is active when \<open>start \<le> end\<close>. The rule with offsets -2 and 0 is active
  on 2025-04-18, 2025-04-19 and 2025-04-20 and inactive on 2025-04-21 (at the first
  instant of those days).
\<close>

theorem holiday_offset_window:
  "(let h = Day (calculateEaster (getFullYear date));
        active = isRuleActive (HolidayOffset ''easter'' s e) date (getFullYear date)
    in (Day date < h + s \<or> h + e < Day date \<longrightarrow> \<not> active) \<and>
       (h + s \<le> Day date \<and> Day date < h + e \<longrightarrow> active) \<and>
       (h + s \<le> Day date \<and> Day date = h + e \<and> TimeWithinDay date = 0 \<longrightarrow> active)) \<and>
   isRuleActive (HolidayOffset ''easter'' (-2) 0) (newDate 2025 3 18) 2025 \<and>
   isRuleActive (HolidayOffset ''easter'' (-2) 0) (newDate 2025 3 19) 2025 \<and>
   isRuleActive (HolidayOffset ''easter'' (-2) 0) (newDate 2025 3 20) 2025 \<and>
   \<not> isRuleActive (HolidayOffset ''easter'' (-2) 0) (newDate 2025 3 21) 2025"
proof -
  have g: "let h = Day (calculateEaster (getFullYear date));
        active = isRuleActive (HolidayOffset ''easter'' s e) date (getFullYear date)
    in (Day date < h + s \<or> h + e < Day date \<longrightarrow> \<not> active) \<and>
       (h + s \<le> Day date \<and> Day date < h + e \<longrightarrow> active) \<and>
       (h + s \<le> Day date \<and> Day date = h + e \<and> TimeWithinDay date = 0 \<longrightarrow> active)"
    by (auto simp: Let_def holiday_window)
  have i: "isRuleActive (HolidayOffset ''easter'' (-2) 0) (newDate 2025 3 18) 2025"
    "isRuleActive (HolidayOffset ''easter'' (-2) 0) (newDate 2025 3 19) 2025"
    "isRuleActive (HolidayOffset ''easter'' (-2) 0) (newDate 2025 3 20) 2025"
    "\<not> isRuleActive (HolidayOffset ''easter'' (-2) 0) (newDate 2025 3 21) 2025"
    by code_simp+
  show ?thesis using g i by blast
qed

theorem holiday_offset_window_witness:
  "\<not> isRuleActive (HolidayOffset ''easter'' (-2) 0) (newDateTime 2025 3 21 10 0)
        (getFullYear (newDateTime 2025 3 21 10 0)) \<and>
   isRuleActive (HolidayOffset ''easter'' (-2) 0) (newDateTime 2025 3 19 15 30)
        (getFullYear (newDateTime 2025 3 19 15 30)) \<and>
   isRuleActive (HolidayOffset ''easter'' (-2) 0) (newDateTime 2025 3 20 0 0)
        (getFullYear (newDateTime 2025 3 20 0 0))"
proof -
  have y: "getFullYear (newDateTime 2025 3 21 10 0) = 2025"
    "getFullYear (newDateTime 2025 3 19 15 30) = 2025"
    "getFullYear (newDateTime 2025 3 20 0 0) = 2025" by code_simp+
  have h: "Day (calculateEaster 2025) = 20198" by code_simp
  have d: "Day (newDateTime 2025 3 21 10 0) = 20199" "Day (newDateTime 2025 3 19 15 30) = 20197"
    "Day (newDateTime 2025 3 20 0 0) = 20198" "TimeWithinDay (newDateTime 2025 3 20 0 0) = 0"
    by code_simp+
  show ?thesis
    using holiday_offset_window [of "newDateTime 2025 3 21 10 0" "-2" 0]
      holiday_offset_window [of "newDateTime 2025 3 19 15 30" "-2" 0]
      holiday_offset_window [of "newDateTime 2025 3 20 0 0" "-2" 0]
    by (simp add: Let_def y h d)
qed

text \<open>
  With the offsets 0 and -2 the window of the claim, from \<open>min\<close> to \<open>max\<close> of the
  offsets, holds 2025-04-19, and the rule is inactive on that day.
\<close>

theorem holiday_offset_reversed_counterexample:
  "Day (calculateEaster 2025) + min 0 (-2) \<le> Day (newDate 2025 3 19) \<and>
   Day (newDate 2025 3 19) \<le> Day (calculateEaster 2025) + max 0 (-2) \<and>
   getFullYear (newDate 2025 3 19) = 2025 \<and>
   \<not> isRuleActive (HolidayOffset ''easter'' 0 (-2)) (newDate 2025 3 19) 2025"
  by code_simp

subsection \<open>Ranges\<close>

text \<open>
  Claim C4. With \<open>MM-DD\<close> the zero-padded month-day string of the target date: a range
  rule with \<open>from <= to\<close> is active exactly when \<open>from <= MM-DD <= to\<close>, and one with
  \<open>from > to\<close> exactly when \<open>MM-DD >= from\<close> or \<open>MM-DD <= to\<close>, the strings compared
  lexicographically. The rule from 12-26 to 01-07 is active on 2025-12-31 and 2026-01-03
  and inactive on 2025-06-15.
\<close>

theorem range_rule_active:
  "isRuleActive (Range from to) date year =
     (if str_le from to
      then str_le from (monthDayString date) \<and> str_le (monthDayString date) to
      else str_le from (monthDayString date) \<or> str_le (monthDayString date) to) \<and>
   isRuleActive (Range ''12-26'' ''01-07'') (newDate 2025 11 31) 2025 \<and>
   isRuleActive (Range ''12-26'' ''01-07'') (newDate 2026 0 3) 2026 \<and>
   \<not> isRuleActive (Range ''12-26'' ''01-07'') (newDate 2025 5 15) 2025"
proof -
  have g: "isRuleActive (Range from to) date year =
     (if str_le from to
      then str_le from (monthDayString date) \<and> str_le (monthDayString date) to
      else str_le from (monthDayString date) \<or> str_le (monthDayString date) to)"
    by (simp add: isInRange_def Let_def currentDate_monthDayString del: append.simps)
  have i: "isRuleActive (Range ''12-26'' ''01-07'') (newDate 2025 11 31) 2025"
    "isRuleActive (Range ''12-26'' ''01-07'') (newDate 2026 0 3) 2026"
    "\<not> isRuleActive (Range ''12-26'' ''01-07'') (newDate 2025 5 15) 2025"
    by code_simp+
  show ?thesis using g i by blast
qed

theorem range_rule_active_witness:
  "monthDayString (newDateTime 2025 3 20 17 45) = ''04-20'' \<and>
   str_le ''03-01'' ''05-31'' \<and>
   isRuleActive (Range ''03-01'' ''05-31'') (newDateTime 2025 3 20 17 45) 2025 \<and>
   \<not> str_le ''12-26'' ''01-07'' \<and>
   \<not> isRuleActive (Range ''12-26'' ''01-07'') (newDateTime 2025 3 20 17 45) 2025"
proof -
  have m: "monthDayString (newDateTime 2025 3 20 17 45) = ''04-20''" by code_simp
  have s: "str_le ''03-01'' ''05-31''" "\<not> str_le ''12-26'' ''01-07''"
    "str_le ''03-01'' ''04-20''" "str_le ''04-20'' ''05-31''"
    "\<not> str_le ''12-26'' ''04-20''" "\<not> str_le ''04-20'' ''01-07''"
    by code_simp+
  show ?thesis
    using range_rule_active [of "''03-01''" "''05-31''" "newDateTime 2025 3 20 17 45" 2025]
      range_rule_active [of "''12-26''" "''01-07''" "newDateTime 2025 3 20 17 45" 2025] m s
    by simp
qed

subsection \<open>Nth weekday\<close>

text \<open>
  Claim C5 at the rule for the 4th Thursday of November with duration 3, in 2025. The
  anchor is 2025-11-27 and the window of the claim ends on 2025-11-28, one day after the
  anchor. At 10:00 on 2025-11-28 the rule is inactive; at the first instant of that day it
  is active: the end of the window is compared as an instant, not as a day. On the two
  days before, the rule is active at 10:00. With duration 1 the rule is active at 10:00 on
  2025-11-27 and inactive at 10:00 on the days before and after.
\<close>

theorem nth_weekday_window_last_day:
  "findNthWeekday 2025 11 4 4 1 0 = Some (newDate 2025 10 27) \<and>
   getFullYear (newDateTime 2025 10 28 10 0) = 2025 \<and>
   Day (newDateTime 2025 10 28 10 0) = Day (newDate 2025 10 27) + (3 - 3 div 2 - 1) \<and>
   \<not> isRuleActive (NthWeekday 11 4 4 (Some 3)) (newDateTime 2025 10 28 10 0) 2025 \<and>
   isRuleActive (NthWeekday 11 4 4 (Some 3)) (newDateTime 2025 10 28 0 0) 2025 \<and>
   isRuleActive (NthWeekday 11 4 4 (Some 3)) (newDateTime 2025 10 26 10 0) 2025 \<and>
   isRuleActive (NthWeekday 11 4 4 (Some 3)) (newDateTime 2025 10 27 10 0) 2025 \<and>
   \<not> isRuleActive (NthWeekday 11 4 4 (Some 1)) (newDateTime 2025 10 26 10 0) 2025 \<and>
   isRuleActive (NthWeekday 11 4 4 (Some 1)) (newDateTime 2025 10 27 10 0) 2025 \<and>
   \<not> isRuleActive (NthWeekday 11 4 4 (Some 1)) (newDateTime 2025 10 28 10 0) 2025"
  by code_simp

subsection \<open>Easter\<close>

text \<open>
  Claim C6. The Easter calculator, in integer arithmetic with floor division, returns
  March 31 for 2024, April 20 for 2025 and April 5 for 2026 (month indices 2, 3, 3 of the
  constructor; months 3, 4, 4 of the calendar).
\<close>

theorem easter_reference_years:
  "calculateEaster 2024 = newDate 2024 2 31 \<and>
   calculateEaster 2025 = newDate 2025 3 20 \<and>
   calculateEaster 2026 = newDate 2026 3 5 \<and>
   (getFullYear (calculateEaster 2024), getMonth (calculateEaster 2024) + 1,
      getDate (calculateEaster 2024)) = (2024, 3, 31) \<and>
   (getFullYear (calculateEaster 2025), getMonth (calculateEaster 2025) + 1,
      getDate (calculateEaster 2025)) = (2025, 4, 20) \<and>
   (getFullYear (calculateEaster 2026), getMonth (calculateEaster 2026) + 1,
      getDate (calculateEaster 2026)) = (2026, 4, 5)"
  by code_simp

subsection \<open>Availability\<close>

text \<open>
  Claim C7. The claim is about the rules that reach the availability filter, that is
  every rule but the entry named \<open>everyday\<close>, which is set aside for the fallback
  beforehand. In a catalog with distinct rule names, for such a rule: when it has
  \<open>enabled = false\<close>, its name is not among the enabled cultures, and its region list
  does not hold the user's region, no entry of the result carries its name, whatever its
  date rule says; when \<open>enabled\<close> is unset or true, it is among the available rules.
\<close>

theorem disabled_rule_needs_opt_in:
  assumes "distinct (map (\<lambda>r. name (fst r)) (allRules config))"
      and "r \<in> set (allRules config)" and "name (fst r) \<noteq> ''everyday''"
  shows "(enabled (fst r) = Some False \<and> name (fst r) \<notin> set (culturesOf options) \<and>
          \<not> (\<exists>rs u. region (fst r) = Some rs \<and> userRegion options = Some u \<and>
                     rs \<noteq> [] \<and> u \<in> set rs)
          \<longrightarrow> (\<exists>themes. resolveThemesForDate config date options = Inr themes \<and>
                 (\<forall>t\<in>set themes. theme_name t \<noteq> name (fst r)))) \<and>
         (enabled (fst r) \<noteq> Some False \<longrightarrow> r \<in> set (availableRules config options))"
proof (intro conjI impI)
  assume h: "enabled (fst r) = Some False \<and> name (fst r) \<notin> set (culturesOf options) \<and>
          \<not> (\<exists>rs u. region (fst r) = Some rs \<and> userRegion options = Some u \<and>
                     rs \<noteq> [] \<and> u \<in> set rs)"
  then have na: "\<not> isAvailable (culturesOf options) (userRegion options) r"
    by (intro not_available) simp_all
  from resolve_cases [of config date options] obtain themes where
    res: "resolveThemesForDate config date options = Inr themes"
    and sh: "if matchingThemes config date options = [] then themes = fallbackThemes config
             else set themes = set (matchingThemes config date options) \<and>
                  length themes = length (matchingThemes config date options) \<and>
                  sortArray (compareThemes (allRules config) (getFullYear date))
                    (matchingThemes config date options) = Inr themes"
    by blast
  have "theme_name t \<noteq> name (fst r)" if t: "t \<in> set themes" for t
  proof (cases "matchingThemes config date options = []")
    case True
    then have "theme_name t = ''everyday''" using sh t fallbackThemes_name by simp
    then show ?thesis using assms(3) by simp
  next
    case False
    then have "t \<in> set (matchingThemes config date options)" using sh t by simp
    from matching_origin [OF this] obtain r' where
      r': "r' \<in> set (allRules config)" "t = toResolved r'"
          "isAvailable (culturesOf options) (userRegion options) r'" by blast
    show ?thesis
    proof
      assume "theme_name t = name (fst r)"
      then have "name (fst r') = name (fst r)" using r'(2) by (simp add: toResolved_simps)
      then have "r' = r" using same_name_same_rule [OF assms(1) assms(2) r'(1)] by simp
      then show False using r'(3) na by simp
    qed
  qed
  then show "\<exists>themes. resolveThemesForDate config date options = Inr themes \<and>
                 (\<forall>t\<in>set themes. theme_name t \<noteq> name (fst r))"
    using res by blast
next
  assume "enabled (fst r) \<noteq> Some False"
  then show "r \<in> set (availableRules config options)"
    using assms(2,3) available_by_default by (simp add: availableRules_def)
qed

theorem disabled_rule_needs_opt_in_witness:
  "resolveThemesForDate sampleCatalog (newDateTime 2025 9 23 8 0) noOptions =
     Inr [\<lparr>theme_name = ''everyday'', theme_category = Everyday, theme_rule = Always,
           theme_metadata = None\<rparr>] \<and>
   isRuleActive (Range ''10-20'' ''10-25'') (newDateTime 2025 9 23 8 0) 2025 \<and>
   (\<exists>themes. resolveThemesForDate sampleCatalog (newDateTime 2025 9 23 8 0) noOptions = Inr themes \<and>
      list_all (\<lambda>t. theme_name t \<noteq> ''diwali'') themes) \<and>
   (plainRule ''winter'' (Range ''12-01'' ''02-28''), Seasonal)
      \<in> set (availableRules sampleCatalog noOptions)"
proof -
  have d: "distinct (map (\<lambda>r. name (fst r)) (allRules sampleCatalog))"
    by code_simp
  have m1: "(optInRule ''diwali'' (Range ''10-20'' ''10-25'') [''india''], Cultural)
              \<in> set (allRules sampleCatalog)"
    and m2: "(plainRule ''winter'' (Range ''12-01'' ''02-28''), Seasonal) \<in> set (allRules sampleCatalog)"
    by (simp_all add: allRules_def sampleCatalog_def)
  have n1: "name (fst (optInRule ''diwali'' (Range ''10-20'' ''10-25'') [''india''], Cultural)) \<noteq> ''everyday''"
    and n2: "name (fst (plainRule ''winter'' (Range ''12-01'' ''02-28''), Seasonal)) \<noteq> ''everyday''"
    by (simp_all add: optInRule_def plainRule_def)
  have e: "resolveThemesForDate sampleCatalog (newDateTime 2025 9 23 8 0) noOptions =
     Inr [\<lparr>theme_name = ''everyday'', theme_category = Everyday, theme_rule = Always,
           theme_metadata = None\<rparr>]"
    "isRuleActive (Range ''10-20'' ''10-25'') (newDateTime 2025 9 23 8 0) 2025"
    by code_simp+
  show ?thesis
    unfolding list_all_iff
    using disabled_rule_needs_opt_in [OF d m1 n1, of noOptions "newDateTime 2025 9 23 8 0"]
      disabled_rule_needs_opt_in [OF d m2 n2, of noOptions "newDateTime 2025 9 23 8 0"] e
    by (simp add: optInRule_def plainRule_def noOptions_def culturesOf_def)
qed

subsection \<open>The primary theme\<close>

text \<open>
  Claim C8. Both operations return without raising, for every catalog, date and options.
  The primary theme is the first element of the resolved list when the list is not empty
  and none when it is empty; the list is empty exactly when the everyday list has no entry
  named \<open>everyday\<close> and no rule matches.
\<close>

theorem primary_is_first_or_none:
  "\<exists>themes. resolveThemesForDate config date options = Inr themes \<and>
     resolvePrimaryThemeForDate config date options =
       Inr (case themes of [] \<Rightarrow> None | t # ts \<Rightarrow> Some t) \<and>
     ((themes = []) =
        (find (\<lambda>r. name r = ''everyday'') (everyday config) = None \<and>
         matchingThemes config date options = []))"
proof -
  from resolve_cases [of config date options] obtain themes where
    res: "resolveThemesForDate config date options = Inr themes"
    and sh: "if matchingThemes config date options = [] then themes = fallbackThemes config
             else set themes = set (matchingThemes config date options) \<and>
                  length themes = length (matchingThemes config date options) \<and>
                  sortArray (compareThemes (allRules config) (getFullYear date))
                    (matchingThemes config date options) = Inr themes"
    by blast
  have p: "resolvePrimaryThemeForDate config date options =
             Inr (case themes of [] \<Rightarrow> None | t # ts \<Rightarrow> Some t)"
    using res by (cases themes) (simp_all add: resolvePrimaryThemeForDate_def)
  have e: "(themes = []) =
        (find (\<lambda>r. name r = ''everyday'') (everyday config) = None \<and>
         matchingThemes config date options = [])"
  proof (cases "matchingThemes config date options = []")
    case True
    then show ?thesis using sh fallbackThemes_empty by simp
  next
    case False
    then have "length themes \<noteq> 0" using sh by simp
    then show ?thesis using False by simp
  qed
  show ?thesis using res p e by blast
qed

theorem primary_is_first_or_none_witness:
  "resolveThemesForDate emptyCatalog (newDate 2025 5 15) noOptions = Inr [] \<and>
   resolvePrimaryThemeForDate emptyCatalog (newDate 2025 5 15) noOptions = Inr None \<and>
   find (\<lambda>r. name r = ''everyday'') (everyday emptyCatalog) = None \<and>
   matchingThemes emptyCatalog (newDate 2025 5 15) noOptions = []"
proof -
  have f: "find (\<lambda>r. name r = ''everyday'') (everyday emptyCatalog) = None"
    by (simp add: emptyCatalog_def)
  have m: "matchingThemes emptyCatalog (newDate 2025 5 15) noOptions = []"
    by (simp add: matchingThemes_def availableRules_def allRules_def emptyCatalog_def)
  from primary_is_first_or_none [of emptyCatalog "newDate 2025 5 15" noOptions]
  obtain themes where
    t: "resolveThemesForDate emptyCatalog (newDate 2025 5 15) noOptions = Inr themes"
       "resolvePrimaryThemeForDate emptyCatalog (newDate 2025 5 15) noOptions =
          Inr (case themes of [] \<Rightarrow> None | t # ts \<Rightarrow> Some t)"
       "(themes = []) =
          (find (\<lambda>r. name r = ''everyday'') (everyday emptyCatalog) = None \<and>
           matchingThemes emptyCatalog (newDate 2025 5 15) noOptions = [])"
    by blast
  have "themes = []" using t(3) f m by simp
  then show ?thesis using t f m by simp
qed

subsection \<open>Unsupported holidays\<close>

text \<open>
  Claim C9. A holiday-offset rule whose holiday is not \<open>easter\<close> is inactive for every
  date and year. For every catalog, whether or not it holds such rules, the resolution
  returns a list and goes on with the other rules: the matching themes are those of the
  available and active rules other than such a rule, in catalog order; every available
  and active rule has its theme in the result; and when some rule matches, the result
  holds the matching themes and nothing else.
\<close>

theorem unsupported_holiday_inactive:
  assumes "holiday \<noteq> ''easter''"
  shows "\<not> isRuleActive (HolidayOffset holiday s e) date year \<and>
         matchingThemes config date' options =
           map toResolved
             (filter (\<lambda>r. rule (fst r) \<noteq> HolidayOffset holiday s e \<and>
                          isAvailable (culturesOf options) (userRegion options) r \<and>
                          isRuleActive (rule (fst r)) date' (getFullYear date'))
                (allRules config)) \<and>
         (\<exists>themes. resolveThemesForDate config date' options = Inr themes \<and>
            (\<forall>r\<in>set (allRules config).
                isAvailable (culturesOf options) (userRegion options) r \<and>
                isRuleActive (rule (fst r)) date' (getFullYear date')
                \<longrightarrow> toResolved r \<in> set themes) \<and>
            (matchingThemes config date' options \<noteq> [] \<longrightarrow>
               set themes = set (matchingThemes config date' options) \<and>
               length themes = length (matchingThemes config date' options)))"
proof -
  let ?H = "HolidayOffset holiday s e"
  let ?M = "matchingThemes config date' options"
  let ?av = "isAvailable (culturesOf options) (userRegion options)"
  let ?act = "\<lambda>r. isRuleActive (rule (fst r)) date' (getFullYear date')"
  have a: "\<not> isRuleActive ?H d y" for d y
    using assms by (simp add: isHolidayOffsetActive_def)
  have n: "rule (fst r) \<noteq> ?H" if "?act r" for r
    using that a by auto
  have "filter ?act (filter ?av (allRules config)) =
          filter (\<lambda>r. rule (fst r) \<noteq> ?H \<and> ?av r \<and> ?act r) (allRules config)"
    unfolding filter_filter by (rule filter_cong [OF refl]) (use n in blast)
  then have m: "?M = map toResolved
                  (filter (\<lambda>r. rule (fst r) \<noteq> ?H \<and> ?av r \<and> ?act r) (allRules config))"
    by (simp add: matchingThemes_def availableRules_def)
  from resolve_cases [of config date' options] obtain themes where
    res: "resolveThemesForDate config date' options = Inr themes"
    and sh: "if ?M = [] then themes = fallbackThemes config
             else set themes = set ?M \<and> length themes = length ?M \<and>
                  sortArray (compareThemes (allRules config) (getFullYear date')) ?M = Inr themes"
    by blast
  have i: "toResolved r \<in> set themes"
    if "r \<in> set (allRules config)" and "?av r" and "?act r" for r
  proof -
    have "toResolved r \<in> set ?M"
      using that by (auto simp: matchingThemes_def availableRules_def)
    moreover from this have "?M \<noteq> []" by auto
    ultimately show ?thesis using sh by simp
  qed
  have k: "?M \<noteq> [] \<longrightarrow> set themes = set ?M \<and> length themes = length ?M"
    using sh by simp
  show ?thesis using a m res i k by blast
qed

theorem unsupported_holiday_inactive_witness:
  "''pentecost'' \<noteq> ''easter'' \<and>
   \<not> isRuleActive (HolidayOffset ''pentecost'' 49 50) (newDateTime 2025 11 31 9 0) 2025 \<and>
   (plainRule ''pentecost'' (HolidayOffset ''pentecost'' 49 50), Holidays)
      \<in> set (availableRules sampleCatalog noOptions) \<and>
   matchingThemes sampleCatalog (newDateTime 2025 11 31 9 0) noOptions =
     [toResolved (plainRule ''winter'' (Range ''12-01'' ''02-28''), Seasonal),
      toResolved (plainRule ''christmas'' (Range ''12-26'' ''01-07''), Seasonal)] \<and>
   (\<exists>themes. resolveThemesForDate sampleCatalog (newDateTime 2025 11 31 9 0) noOptions = Inr themes \<and>
      toResolved (plainRule ''winter'' (Range ''12-01'' ''02-28''), Seasonal) \<in> set themes \<and>
      toResolved (plainRule ''christmas'' (Range ''12-26'' ''01-07''), Seasonal) \<in> set themes \<and>
      length themes = 2)"
proof -
  let ?d = "newDateTime 2025 11 31 9 0"
  let ?w = "(plainRule ''winter'' (Range ''12-01'' ''02-28''), Seasonal)"
  let ?c = "(plainRule ''christmas'' (Range ''12-26'' ''01-07''), Seasonal)"
  have h: "''pentecost'' \<noteq> ''easter''" by simp
  have v: "(plainRule ''pentecost'' (HolidayOffset ''pentecost'' 49 50), Holidays)
      \<in> set (availableRules sampleCatalog noOptions)"
    by code_simp
  have m: "matchingThemes sampleCatalog ?d noOptions = [toResolved ?w, toResolved ?c]"
    by code_simp
  have w: "?w \<in> set (allRules sampleCatalog)" "?c \<in> set (allRules sampleCatalog)"
    by (simp_all add: allRules_def sampleCatalog_def)
  have av: "isAvailable (culturesOf noOptions) (userRegion noOptions) ?w"
    "isAvailable (culturesOf noOptions) (userRegion noOptions) ?c"
    by code_simp+
  have ac: "isRuleActive (rule (fst ?w)) ?d (getFullYear ?d)"
    "isRuleActive (rule (fst ?c)) ?d (getFullYear ?d)"
    by code_simp+
  from unsupported_holiday_inactive [OF h, of 49 50 ?d 2025 sampleCatalog ?d noOptions]
  obtain themes where
    n: "\<not> isRuleActive (HolidayOffset ''pentecost'' 49 50) ?d 2025"
    and r: "resolveThemesForDate sampleCatalog ?d noOptions = Inr themes"
    and i: "\<forall>r\<in>set (allRules sampleCatalog).
                isAvailable (culturesOf noOptions) (userRegion noOptions) r \<and>
                isRuleActive (rule (fst r)) ?d (getFullYear ?d)
                \<longrightarrow> toResolved r \<in> set themes"
    and k: "matchingThemes sampleCatalog ?d noOptions \<noteq> [] \<longrightarrow>
               set themes = set (matchingThemes sampleCatalog ?d noOptions) \<and>
               length themes = length (matchingThemes sampleCatalog ?d noOptions)"
    by blast
  have "toResolved ?w \<in> set themes" "toResolved ?c \<in> set themes"
    using i w av ac by blast+
  moreover have "length themes = 2" using k m by simp
  ultimately show ?thesis using h n v m r by blast
qed

subsection \<open>The name \<open>everyday\<close>\<close>

text \<open>
  Claim C10. A rule named \<open>everyday\<close> is not available, in whichever list it stands. An
  entry named \<open>everyday\<close> is in the result only as the fallback: no rule matches, the
  everyday list holds a rule of that name, and the result is the entry built from the first
  such rule; when no rule matches and the everyday list holds no rule of that name, the
  result is empty. A rule of the everyday list under another name is available on the terms
  of any other rule, and when it is available and active its theme is in the result, with
  the category \<open>everyday\<close>.
\<close>

theorem everyday_name_is_the_key:
  "(name r = ''everyday'' \<longrightarrow> \<not> isAvailable cs ur (r, c)) \<and>
   (\<exists>themes. resolveThemesForDate config date options = Inr themes \<and>
      (\<forall>t\<in>set themes. theme_name t = ''everyday'' \<longrightarrow>
          matchingThemes config date options = [] \<and>
          (\<exists>e. find (\<lambda>r. name r = ''everyday'') (everyday config) = Some e \<and>
               themes = [\<lparr>theme_name = ''everyday'', theme_category = Everyday,
                          theme_rule = rule e, theme_metadata = metadata e\<rparr>])) \<and>
      (matchingThemes config date options = [] \<and>
       find (\<lambda>r. name r = ''everyday'') (everyday config) = None \<longrightarrow> themes = []) \<and>
      (\<forall>q\<in>set (everyday config). name q \<noteq> ''everyday'' \<longrightarrow>
          isAvailable (culturesOf options) (userRegion options) (q, Everyday) =
            (enabled q \<noteq> Some False \<or> name q \<in> set (culturesOf options) \<or>
             (\<exists>rs u. region q = Some rs \<and> userRegion options = Some u \<and> u \<noteq> [] \<and> u \<in> set rs)) \<and>
          (isAvailable (culturesOf options) (userRegion options) (q, Everyday) \<and>
           isRuleActive (rule q) date (getFullYear date) \<longrightarrow>
             toResolved (q, Everyday) \<in> set themes)))"
proof -
  let ?M = "matchingThemes config date options"
  have a: "name r = ''everyday'' \<longrightarrow> \<not> isAvailable cs ur (r, c)"
    by (simp add: isAvailable_def)
  from resolve_cases [of config date options] obtain themes where
    res: "resolveThemesForDate config date options = Inr themes"
    and sh: "if ?M = [] then themes = fallbackThemes config
             else set themes = set ?M \<and> length themes = length ?M \<and>
                  sortArray (compareThemes (allRules config) (getFullYear date)) ?M = Inr themes"
    by blast
  have b: "?M = [] \<and>
          (\<exists>e. find (\<lambda>r. name r = ''everyday'') (everyday config) = Some e \<and>
               themes = [\<lparr>theme_name = ''everyday'', theme_category = Everyday,
                          theme_rule = rule e, theme_metadata = metadata e\<rparr>])"
    if t: "t \<in> set themes" and n: "theme_name t = ''everyday''" for t
  proof -
    have m: "?M = []"
    proof (rule ccontr)
      assume "?M \<noteq> []"
      then have "t \<in> set ?M" using sh t by simp
      then show False using matching_not_everyday n by blast
    qed
    then have f: "themes = fallbackThemes config" using sh by simp
    then have "fallbackThemes config \<noteq> []" using t by auto
    then obtain e where "find (\<lambda>r. name r = ''everyday'') (everyday config) = Some e"
      using fallbackThemes_empty by fastforce
    then show ?thesis using m f by (simp add: fallbackThemes_def)
  qed
  have c: "?M = [] \<and> find (\<lambda>r. name r = ''everyday'') (everyday config) = None \<longrightarrow> themes = []"
    using sh fallbackThemes_empty by auto
  have d: "toResolved (q, Everyday) \<in> set themes"
    if "q \<in> set (everyday config)"
      and "isAvailable (culturesOf options) (userRegion options) (q, Everyday)"
      and "isRuleActive (rule q) date (getFullYear date)" for q
  proof -
    have "toResolved (q, Everyday) \<in> set ?M"
      using that everyday_list_tagged [of q config]
      by (auto simp: matchingThemes_def availableRules_def)
    moreover from this have "?M \<noteq> []" by auto
    ultimately show ?thesis using sh by simp
  qed
  show ?thesis using a res b c d isAvailable_other_name by blast
qed

theorem everyday_name_is_the_key_witness:
  "\<not> isAvailable [] None (plainRule ''everyday'' Always, Seasonal) \<and>
   resolveThemesForDate swappedCatalog (newDateTime 2025 5 15 12 0) noOptions =
     Inr [toResolved (plainRule ''idle'' (Range ''06-01'' ''06-30''), Everyday)] \<and>
   resolveThemesForDate swappedCatalog (newDateTime 2025 0 1 12 0) noOptions = Inr []"
proof -
  have n: "name (plainRule ''everyday'' Always) = ''everyday''"
    by (simp add: plainRule_def)
  have e: "resolveThemesForDate swappedCatalog (newDateTime 2025 5 15 12 0) noOptions =
     Inr [toResolved (plainRule ''idle'' (Range ''06-01'' ''06-30''), Everyday)]"
    "resolveThemesForDate swappedCatalog (newDateTime 2025 0 1 12 0) noOptions = Inr []"
    by code_simp+
  show ?thesis
    using everyday_name_is_the_key [of "plainRule ''everyday'' Always" "[]" None Seasonal
        swappedCatalog "newDateTime 2025 5 15 12 0" noOptions] n e
    by simp
qed

end
